theory Spec2Isabelle
  imports Complex_Main "HOL-Library.Word" "HOL-Library.Signed_Division"
begin

section \<open>Transport configuration (src/timeline/transport.go)\<close>

text \<open>
  Go's \<^verbatim>\<open>int\<close> (on a 64-bit platform) and \<^verbatim>\<open>time.Duration\<close> (an \<^verbatim>\<open>int64\<close> count of
  nanoseconds) are 64-bit two's complement values, read with \<open>sint\<close>.
\<close>

type_synonym go_int = "64 word"
type_synonym Duration = "64 word"

record DefaultTransportConfiguration =
  TransportBufferSize :: go_int
  BatchSendInterval :: Duration
  RequestTimeout :: Duration
  SerializerBufferSize :: go_int

text \<open>The four \<^verbatim>\<open>fmt.Errorf\<close> results of \<^verbatim>\<open>Validate\<close>, each with the value it formats.\<close>

datatype config_error =
    InvalidBufferSize go_int
  | InvalidSerializerBufferSize go_int
  | InvalidBatchSendInterval Duration
  | InvalidRequestTimeout Duration

text \<open>
  \<^verbatim>\<open>Duration.Seconds\<close> of the Go standard library:
  \<^verbatim>\<open>sec := d / Second; nsec := d % Second; return float64(sec) + float64(nsec)/1e9\<close>.
  Go's \<^verbatim>\<open>/\<close> and \<^verbatim>\<open>%\<close> truncate towards zero (\<open>sdiv\<close>, \<open>smod\<close>). The result is a
  \<^verbatim>\<open>float64\<close>: every conversion and every arithmetic operation rounds, and the rounding
  function \<open>rnd\<close> is a parameter of the model.
\<close>

definition Second :: int where
  "Second = 1000000000"

definition Seconds :: "(real \<Rightarrow> real) \<Rightarrow> Duration \<Rightarrow> real" where
  "Seconds rnd d =
     (let sec = sint d sdiv Second;
          nsec = sint d smod Second
      in rnd (rnd (of_int sec) + rnd (rnd (of_int nsec) / 1000000000)))"

text \<open>
  What is assumed of the rounding: zero is exact, and in the range of the normal
  \<^verbatim>\<open>float64\<close> numbers the relative error is at most \<open>2\<^sup>-\<^sup>5\<^sup>3\<close> (the standard model of
  IEEE 754 round-to-nearest).
\<close>

definition min_normal :: real where
  "min_normal = 1 / 2 ^ 1022"

definition max_float :: real where
  "max_float = 2 ^ 1023"

definition float64_rounding :: "(real \<Rightarrow> real) \<Rightarrow> bool" where
  "float64_rounding rnd \<longleftrightarrow>
     rnd 0 = 0 \<and>
     (\<forall>x. min_normal \<le> \<bar>x\<bar> \<and> \<bar>x\<bar> \<le> max_float \<longrightarrow> \<bar>rnd x - x\<bar> \<le> \<bar>x\<bar> / 2 ^ 53)"

definition Validate :: "(real \<Rightarrow> real) \<Rightarrow> DefaultTransportConfiguration \<Rightarrow> config_error option" where
  "Validate rnd c =
     (if sint (TransportBufferSize c) \<le> 0 then
        Some (InvalidBufferSize (TransportBufferSize c))
      else if sint (SerializerBufferSize c) \<le> 0 then
        Some (InvalidSerializerBufferSize (SerializerBufferSize c))
      else if Seconds rnd (BatchSendInterval c) \<le> 0 then
        Some (InvalidBatchSendInterval (BatchSendInterval c))
      else if Seconds rnd (RequestTimeout c) \<le> 0 then
        Some (InvalidRequestTimeout (RequestTimeout c))
      else None)"


section \<open>The transfer loop (src/timeline/transport.go)\<close>

text \<open>
  The items of the channel are opaque (\<^verbatim>\<open>interface{}\<close>): a type variable. An error of the
  sender is the text of its \<^verbatim>\<open>Error()\<close>.
\<close>

text \<open>The messages that \<^verbatim>\<open>Start\<close>, \<^verbatim>\<open>transferDataLoop\<close> and \<^verbatim>\<open>Close\<close> give the logger.\<close>

datatype log_entry =
    InfoStarting
  | InfoInitializing
  | InfoSkipping
  | InfoBreaking
  | InfoBufferEmpty
  | InfoSending nat
  | ErrorReported string
  | InfoSent nat
  | InfoClosing

text \<open>
  What an execution does to its surroundings, in the order it happens: a producer's send
  completes, the channel is closed, the loop starts a drain (\<^verbatim>\<open>points := []interface{}{}\<close>),
  the loop receives a point, the loop calls \<^verbatim>\<open>TransferData\<close>, the call returns, a message is
  logged.
\<close>

datatype 'a obs =
    Sent 'a
  | ChanClosed
  | DrainBegins
  | Recv 'a
  | TransferCall "'a list"
  | TransferReturn "string option"
  | Logged log_entry

text \<open>
  Where the goroutine of \<^verbatim>\<open>transferDataLoop\<close> stands: not yet started; blocked on
  \<^verbatim>\<open>time.After\<close> (line 120); in the inner loop with the local \<^verbatim>\<open>points\<close> (lines 133-147);
  inside \<^verbatim>\<open>TransferData(points)\<close> (line 158); or returned after \<^verbatim>\<open>break outterFor\<close>, with
  the value \<^verbatim>\<open>points\<close> had then.
\<close>

datatype 'a loop_pc =
    NotStarted
  | Sleeping
  | Draining "'a list"
  | Transferring "'a list"
  | Stopped "'a list"

text \<open>
  The state of one \<^verbatim>\<open>transportCore\<close>: the field \<^verbatim>\<open>dataTransferInProgress\<close> (a \<^verbatim>\<open>uint32\<close>),
  the buffer of \<^verbatim>\<open>pointChannel\<close> (oldest first), its capacity and whether it is closed,
  the values of the goroutines started by \<^verbatim>\<open>go atomic.SwapUint32(&t.dataTransferInProgress, v)\<close> that
  have not run yet, the position of the loop, whether the program has panicked, and the
  history of the execution.
\<close>

record 'a transportCore =
  dataTransferInProgress :: "32 word"
  pointChannel :: "'a list"
  chanCapacity :: nat
  chanClosed :: bool
  swaps :: "32 word list"
  loop :: "'a loop_pc"
  panicked :: bool
  trace :: "'a obs list"

text \<open>
  A core as its constructor (not in this file) leaves it: the flag has the zero value, the
  channel is empty and open. The capacity of the channel is the constructor's choice.
\<close>

definition newCore :: "nat \<Rightarrow> 'a transportCore" where
  "newCore cap = \<lparr> dataTransferInProgress = 0, pointChannel = [], chanCapacity = cap,
     chanClosed = False, swaps = [], loop = NotStarted, panicked = False, trace = [] \<rparr>"

text \<open>
  The steps of an execution. Each is atomic, and any goroutine may take the next one: the
  scheduler's choices are the list of events given to \<open>run\<close>.
  \<^item> \<open>CallStart\<close>: \<^verbatim>\<open>Start()\<close>, which starts the one loop goroutine of the model;
  \<^item> \<open>Enqueue x\<close>: a producer's send \<^verbatim>\<open>DataChannel() <- x\<close> completes;
  \<^item> \<open>CallClose\<close>: \<^verbatim>\<open>Close()\<close>;
  \<^item> \<open>TimerFires\<close>: the loop wakes from \<^verbatim>\<open>time.After\<close> and reads the flag (lines 120-129);
  \<^item> \<open>Select\<close>: one \<^verbatim>\<open>select\<close> of the inner loop, and, on \<^verbatim>\<open>default\<close>, what follows up to
    the call of \<^verbatim>\<open>TransferData\<close> (lines 133-158);
  \<^item> \<open>TransferReturns err\<close>: the sender returns \<open>err\<close> (lines 158-165);
  \<^item> \<open>RunSwap i\<close>: the \<open>i\<close>-th waiting \<^verbatim>\<open>atomic.SwapUint32\<close> goroutine runs.

  Time is not modelled: the timer may fire whenever the loop waits for it. Between two
  accesses to the flag or the channel the loop only works on its locals and logs, so
  those stretches are single steps. The read of the flag at line 122 is a plain read; it
  yields the value the flag has at that step. The sender is \<^verbatim>\<open>t.transport\<close>, outside this
  file: what it returns, and when, is the scheduler's choice too (a sender that never
  returns is a schedule without \<open>TransferReturns\<close>).
\<close>

datatype 'a event =
    CallStart
  | Enqueue 'a
  | CallClose
  | TimerFires
  | Select
  | TransferReturns "string option"
  | RunSwap nat

definition logged :: "log_entry \<Rightarrow> 'a transportCore \<Rightarrow> 'a transportCore" where
  "logged m t = t\<lparr>trace := trace t @ [Logged m]\<rparr>"

text \<open>
  \<^verbatim>\<open>Start\<close> logs and starts the loop, which logs and blocks on its timer. A second \<^verbatim>\<open>Start\<close>
  would start a second loop; the model has one, and has no step for it.
\<close>

definition Start :: "'a transportCore \<Rightarrow> 'a transportCore option" where
  "Start t =
     (case loop t of
        NotStarted \<Rightarrow> Some ((logged InfoInitializing (logged InfoStarting t))\<lparr>loop := Sleeping\<rparr>)
      | _ \<Rightarrow> None)"

text \<open>
  A send on a closed channel panics. A send on a full buffer blocks: the event is the
  completion of the send, and has no step while the buffer is full.
\<close>

definition enqueue :: "'a \<Rightarrow> 'a transportCore \<Rightarrow> 'a transportCore option" where
  "enqueue x t =
     (if chanClosed t then Some (t\<lparr>panicked := True\<rparr>)
      else if length (pointChannel t) < chanCapacity t then
        Some (t\<lparr>pointChannel := pointChannel t @ [x], trace := trace t @ [Sent x]\<rparr>)
      else None)"

text \<open>\<^verbatim>\<open>Close\<close> logs and closes the channel; closing a closed channel panics.\<close>

definition Close :: "'a transportCore \<Rightarrow> 'a transportCore option" where
  "Close t =
     (let t1 = logged InfoClosing t in
      if chanClosed t1 then Some (t1\<lparr>panicked := True\<rparr>)
      else Some (t1\<lparr>chanClosed := True, trace := trace t1 @ [ChanClosed]\<rparr>))"

text \<open>
  \<^verbatim>\<open>transferDataLoop\<close>, lines 120-129: after the timer, a plain read of the flag. If it is
  set the cycle is skipped. Otherwise a goroutine that will swap in 1 is started (the flag
  itself is not touched here) and the loop enters the inner loop with no points.
\<close>

definition transferDataLoop_wake :: "'a transportCore \<Rightarrow> 'a transportCore option" where
  "transferDataLoop_wake t =
     (case loop t of
        Sleeping \<Rightarrow>
          if dataTransferInProgress t > 0 then Some (logged InfoSkipping t)
          else Some (t\<lparr>swaps := swaps t @ [1], loop := Draining [],
                       trace := trace t @ [DrainBegins]\<rparr>)
      | _ \<Rightarrow> None)"

text \<open>
  \<^verbatim>\<open>transferDataLoop\<close>, lines 133-158: one \<^verbatim>\<open>select\<close>. A buffered point is received and
  appended, whether the channel is closed or not. On a closed and empty channel the
  receive yields \<^verbatim>\<open>ok = false\<close>: the loop logs and leaves by \<^verbatim>\<open>break outterFor\<close>. Otherwise
  \<^verbatim>\<open>default\<close> ends the inner loop: with no points the loop logs and goes back to the timer
  by \<^verbatim>\<open>continue\<close>; with points it logs and calls \<^verbatim>\<open>TransferData\<close>.
\<close>

definition transferDataLoop_select :: "'a transportCore \<Rightarrow> 'a transportCore option" where
  "transferDataLoop_select t =
     (case loop t of
        Draining points \<Rightarrow>
          (case pointChannel t of
             point # rest \<Rightarrow>
               Some (t\<lparr>pointChannel := rest, loop := Draining (points @ [point]),
                       trace := trace t @ [Recv point]\<rparr>)
           | [] \<Rightarrow>
               if chanClosed t then
                 Some ((logged InfoBreaking t)\<lparr>loop := Stopped points\<rparr>)
               else if length points = 0 then
                 Some ((logged InfoBufferEmpty t)\<lparr>loop := Sleeping\<rparr>)
               else
                 Some (t\<lparr>loop := Transferring points,
                         trace := trace t @ [Logged (InfoSending (length points)),
                                             TransferCall points]\<rparr>))
      | _ \<Rightarrow> None)"

text \<open>
  \<^verbatim>\<open>transferDataLoop\<close>, lines 158-165: \<^verbatim>\<open>TransferData\<close> returns; the error or the success
  is logged, a goroutine that will swap in 0 is started, and the loop goes back to the
  timer.
\<close>

definition transferDataLoop_return :: "string option \<Rightarrow> 'a transportCore \<Rightarrow> 'a transportCore option" where
  "transferDataLoop_return err t =
     (case loop t of
        Transferring points \<Rightarrow>
          Some (t\<lparr>swaps := swaps t @ [0], loop := Sleeping,
                  trace := trace t @
                    [TransferReturn err,
                     Logged (case err of Some e \<Rightarrow> ErrorReported e
                                       | None \<Rightarrow> InfoSent (length points))]\<rparr>)
      | _ \<Rightarrow> None)"

text \<open>A waiting \<^verbatim>\<open>atomic.SwapUint32(&t.dataTransferInProgress, v)\<close> runs: the flag becomes \<open>v\<close>.\<close>

definition SwapUint32 :: "nat \<Rightarrow> 'a transportCore \<Rightarrow> 'a transportCore option" where
  "SwapUint32 i t =
     (if i < length (swaps t) then
        Some (t\<lparr>dataTransferInProgress := swaps t ! i,
                swaps := take i (swaps t) @ drop (Suc i) (swaps t)\<rparr>)
      else None)"

text \<open>After a panic the program is gone: no step.\<close>

fun step :: "'a event \<Rightarrow> 'a transportCore \<Rightarrow> 'a transportCore option" where
  "step ev t =
     (if panicked t then None
      else case ev of
        CallStart \<Rightarrow> Start t
      | Enqueue x \<Rightarrow> enqueue x t
      | CallClose \<Rightarrow> Close t
      | TimerFires \<Rightarrow> transferDataLoop_wake t
      | Select \<Rightarrow> transferDataLoop_select t
      | TransferReturns err \<Rightarrow> transferDataLoop_return err t
      | RunSwap i \<Rightarrow> SwapUint32 i t)"

fun run :: "'a event list \<Rightarrow> 'a transportCore \<Rightarrow> 'a transportCore option" where
  "run [] t = Some t"
| "run (ev # evs) t =
     (case step ev t of None \<Rightarrow> None | Some t' \<Rightarrow> run evs t')"

subsection \<open>Reading a history\<close>

text \<open>The points received since the last drain began.\<close>

fun drained :: "'a list \<Rightarrow> 'a obs \<Rightarrow> 'a list" where
  "drained cur DrainBegins = []"
| "drained cur (Recv x) = cur @ [x]"
| "drained cur _ = cur"

definition cycle_points :: "'a obs list \<Rightarrow> 'a list" where
  "cycle_points tr = foldl drained [] tr"

text \<open>The points sent into the channel, the points received, and the batches transferred.\<close>

fun sent_points :: "'a obs list \<Rightarrow> 'a list" where
  "sent_points [] = []"
| "sent_points (Sent x # tr) = x # sent_points tr"
| "sent_points (_ # tr) = sent_points tr"

fun received_points :: "'a obs list \<Rightarrow> 'a list" where
  "received_points [] = []"
| "received_points (Recv x # tr) = x # received_points tr"
| "received_points (_ # tr) = received_points tr"

fun transfers :: "'a obs list \<Rightarrow> 'a list list" where
  "transfers [] = []"
| "transfers (TransferCall b # tr) = b # transfers tr"
| "transfers (_ # tr) = transfers tr"

text \<open>The calls of \<^verbatim>\<open>TransferData\<close> that have not returned.\<close>

fun in_flight :: "'a obs list \<Rightarrow> int" where
  "in_flight [] = 0"
| "in_flight (TransferCall b # tr) = in_flight tr + 1"
| "in_flight (TransferReturn e # tr) = in_flight tr - 1"
| "in_flight (_ # tr) = in_flight tr"

text \<open>The points the loop holds in its local \<^verbatim>\<open>points\<close> and has not given to the sender.\<close>

fun held :: "'a loop_pc \<Rightarrow> 'a list" where
  "held (Draining points) = points"
| "held (Stopped points) = points"
| "held _ = []"


subsection \<open>Invariants of the transfer loop\<close>

text \<open>
  Every batch in a history is what was received since the drain before it began, and is
  not empty. \<open>cur\<close> is what has been received since the last drain began.
\<close>

fun batches_ok :: "'a list \<Rightarrow> 'a obs list \<Rightarrow> bool" where
  "batches_ok cur [] = True"
| "batches_ok cur (TransferCall b # tr) = (b = cur \<and> b \<noteq> [] \<and> batches_ok cur tr)"
| "batches_ok cur (e # tr) = batches_ok (drained cur e) tr"

text \<open>The local \<^verbatim>\<open>points\<close> is what the history says the current drain has received.\<close>

definition cycle_inv :: "'a transportCore \<Rightarrow> bool" where
  "cycle_inv t \<longleftrightarrow>
     batches_ok [] (trace t) \<and>
     (case loop t of
        Draining points \<Rightarrow> cycle_points (trace t) = points
      | Transferring points \<Rightarrow> cycle_points (trace t) = points \<and> points \<noteq> []
      | _ \<Rightarrow> True)"

text \<open>
  The channel is first-in first-out, and every point received is in one batch or still in
  the local \<^verbatim>\<open>points\<close>.
\<close>

definition fifo_inv :: "'a transportCore \<Rightarrow> bool" where
  "fifo_inv t \<longleftrightarrow>
     sent_points (trace t) = received_points (trace t) @ pointChannel t \<and>
     received_points (trace t) = concat (transfers (trace t)) @ held (loop t)"

text \<open>A call of \<^verbatim>\<open>TransferData\<close> is in flight exactly while the loop is inside it.\<close>

definition flight_inv :: "'a transportCore \<Rightarrow> bool" where
  "flight_inv t \<longleftrightarrow>
     in_flight (trace t) = (case loop t of Transferring points \<Rightarrow> 1 | _ \<Rightarrow> 0)"

text \<open>
  The flag is set, no goroutine that would clear it is waiting, and the loop is at its
  timer: every cycle from here on is skipped.
\<close>

definition flag_stuck :: "'a transportCore \<Rightarrow> bool" where
  "flag_stuck t \<longleftrightarrow>
     loop t = Sleeping \<and> dataTransferInProgress t > 0 \<and> list_all (\<lambda>v. v > 0) (swaps t)"

text \<open>What a state is without its history, and what has happened since an earlier state.\<close>

definition forget :: "'a transportCore \<Rightarrow> 'a transportCore" where
  "forget t = t\<lparr>trace := []\<rparr>"

definition since :: "'a transportCore \<Rightarrow> 'a transportCore \<Rightarrow> 'a obs list" where
  "since t u = drop (length (trace t)) (trace u)"


section \<open>The Solr service (src/solar/solr_service.go)\<close>

text \<open>
  The service calls the library \<^verbatim>\<open>github.com/uol/go-solr/solr\<close>, which is not part of this
  repository: \<^verbatim>\<open>solr.NewSolrInterface\<close>, \<^verbatim>\<open>(*SolrInterface).Add\<close> and
  \<^verbatim>\<open>(*SolrInterface).Delete\<close>. A call of the library either panics or returns its pair of
  results; what it answers is a parameter of the model, and may depend on every call issued
  before. A pointer is an \<open>option\<close>, \<open>None\<close> being \<^verbatim>\<open>nil\<close>; so is an \<^verbatim>\<open>error\<close> of the library,
  by its text, and so is a slice, \<open>None\<close> being the \<^verbatim>\<open>nil\<close> slice.
\<close>

datatype 'r outcome = Panics string | Returns 'r

type_synonym url_values = "(string \<times> string list) list"

record SolrUpdateResponse =
  Success :: bool
  Result :: string

datatype ('si, 'd) lib_call =
    CallNewSolrInterface string string
  | CallAdd "'si option" "'d list option" int url_values
  | CallDelete "'si option" "(string \<times> string) list" url_values

record ('si, 'd) solr_library =
  NewSolrInterface ::
    "('si, 'd) lib_call list \<Rightarrow> string \<Rightarrow> string \<Rightarrow> ('si option \<times> string option) outcome"
  Add ::
    "('si, 'd) lib_call list \<Rightarrow> 'si option \<Rightarrow> 'd list option \<Rightarrow> int \<Rightarrow> url_values
       \<Rightarrow> (SolrUpdateResponse option \<times> string option) outcome"
  Delete ::
    "('si, 'd) lib_call list \<Rightarrow> 'si option \<Rightarrow> (string \<times> string) list \<Rightarrow> url_values
       \<Rightarrow> (SolrUpdateResponse option \<times> string option) outcome"
  ErrorEnabled :: bool

text \<open>The errors the service returns: its own, and those of the library passed on.\<close>

datatype service_error =
    DocumentIsNull
  | NoDocumentsToAdd
  | DocumentIdNotInformed
  | QueryNotInformed
  | LibraryError string
  | ErrorDeletingDocuments string

datatype service_log =
    RecoveredFrom string
  | ErrorCreatingInterface string
  | ErrorGettingInterface string

text \<open>
  The service: its \<^verbatim>\<open>url\<close>, the \<^verbatim>\<open>sync.Map\<close> of interfaces by collection, what its logger
  has been given, and every call it has issued to the library, in order.
\<close>

record ('si, 'd) SolrService =
  url :: string
  solrInterfaceCache :: "string \<rightharpoonup> 'si option"
  loggers :: "service_log list"
  issued :: "('si, 'd) lib_call list"

definition cCommit :: string where
  "cCommit = ''commit''"

definition cTrue :: string where
  "cTrue = ''true''"

definition cEmpty :: string where
  "cEmpty = []"

definition cQuery :: string where
  "cQuery = ''query''"

text \<open>
  \<^verbatim>\<open>defer ss.recoverFromFailure()\<close>: when the body panics, the panic is recovered and logged,
  and the function returns the zero value of its unnamed result, a \<^verbatim>\<open>nil\<close> error.
\<close>

definition recoverFromFailure ::
  "('si, 'd) solr_library \<Rightarrow> service_error option outcome \<times> ('si, 'd) SolrService
     \<Rightarrow> service_error option \<times> ('si, 'd) SolrService" where
  "recoverFromFailure lib body =
     (case body of
        (Panics r, ss) \<Rightarrow>
          (None, if ErrorEnabled lib then ss\<lparr>loggers := loggers ss @ [RecoveredFrom r]\<rparr> else ss)
      | (Returns err, ss) \<Rightarrow> (err, ss))"

definition getSolrInterface ::
  "('si, 'd) solr_library \<Rightarrow> string \<Rightarrow> ('si, 'd) SolrService
     \<Rightarrow> ('si option \<times> string option) outcome \<times> ('si, 'd) SolrService" where
  "getSolrInterface lib collection ss =
     (case solrInterfaceCache ss collection of
        Some si \<Rightarrow> (Returns (si, None), ss)
      | None \<Rightarrow>
          (let ss1 = ss\<lparr>issued := issued ss @ [CallNewSolrInterface (url ss) collection]\<rparr> in
           case NewSolrInterface lib (issued ss) (url ss) collection of
             Panics r \<Rightarrow> (Panics r, ss1)
           | Returns (si, Some err) \<Rightarrow>
               (Returns (None, Some err),
                if ErrorEnabled lib
                then ss1\<lparr>loggers := loggers ss1 @ [ErrorCreatingInterface err]\<rparr> else ss1)
           | Returns (si, None) \<Rightarrow>
               (Returns (si, None),
                ss1\<lparr>solrInterfaceCache := (solrInterfaceCache ss1)(collection \<mapsto> si)\<rparr>)))"

text \<open>\<^verbatim>\<open>params := &url.Values{}; if commit { params.Add(cCommit, cTrue) }\<close>\<close>

definition commit_params :: "bool \<Rightarrow> url_values" where
  "commit_params commit = (if commit then [(cCommit, [cTrue])] else [])"

text \<open>
  What \<^verbatim>\<open>AddDocument\<close> and \<^verbatim>\<open>AddDocuments\<close> both do after their check: get the interface,
  build the parameters, call \<^verbatim>\<open>si.Add(docs, 0, params)\<close>.
\<close>

definition add_to_collection ::
  "('si, 'd) solr_library \<Rightarrow> string \<Rightarrow> bool \<Rightarrow> 'd list option \<Rightarrow> ('si, 'd) SolrService
     \<Rightarrow> service_error option outcome \<times> ('si, 'd) SolrService" where
  "add_to_collection lib collection commit docs ss =
     (case getSolrInterface lib collection ss of
        (Panics r, ss1) \<Rightarrow> (Panics r, ss1)
      | (Returns (si, Some err), ss1) \<Rightarrow>
          (Returns (Some (LibraryError err)),
           if ErrorEnabled lib
           then ss1\<lparr>loggers := loggers ss1 @ [ErrorGettingInterface err]\<rparr> else ss1)
      | (Returns (si, None), ss1) \<Rightarrow>
          (let params = commit_params commit;
               ss2 = ss1\<lparr>issued := issued ss1 @ [CallAdd si docs 0 params]\<rparr> in
           case Add lib (issued ss1) si docs 0 params of
             Panics r \<Rightarrow> (Panics r, ss2)
           | Returns (resp, Some err) \<Rightarrow> (Returns (Some (LibraryError err)), ss2)
           | Returns (resp, None) \<Rightarrow> (Returns None, ss2)))"

definition AddDocument ::
  "('si, 'd) solr_library \<Rightarrow> string \<Rightarrow> bool \<Rightarrow> 'd option \<Rightarrow> ('si, 'd) SolrService
     \<Rightarrow> service_error option \<times> ('si, 'd) SolrService" where
  "AddDocument lib collection commit doc ss =
     recoverFromFailure lib
       (case doc of
          None \<Rightarrow> (Returns (Some DocumentIsNull), ss)
        | Some d \<Rightarrow> add_to_collection lib collection commit (Some [d]) ss)"

definition AddDocuments ::
  "('si, 'd) solr_library \<Rightarrow> string \<Rightarrow> bool \<Rightarrow> 'd list option \<Rightarrow> ('si, 'd) SolrService
     \<Rightarrow> service_error option \<times> ('si, 'd) SolrService" where
  "AddDocuments lib collection commit docs ss =
     recoverFromFailure lib
       (if docs = None \<or> length (case docs of None \<Rightarrow> [] | Some ds \<Rightarrow> ds) = 0 then
          (Returns (Some NoDocumentsToAdd), ss)
        else add_to_collection lib collection commit docs ss)"

definition DeleteDocumentByQuery ::
  "('si, 'd) solr_library \<Rightarrow> string \<Rightarrow> bool \<Rightarrow> string \<Rightarrow> ('si, 'd) SolrService
     \<Rightarrow> service_error option \<times> ('si, 'd) SolrService" where
  "DeleteDocumentByQuery lib collection commit query ss =
     recoverFromFailure lib
       (if query = cEmpty then (Returns (Some QueryNotInformed), ss)
        else case getSolrInterface lib collection ss of
          (Panics r, ss1) \<Rightarrow> (Panics r, ss1)
        | (Returns (si, Some err), ss1) \<Rightarrow>
            (Returns (Some (LibraryError err)),
             if ErrorEnabled lib
             then ss1\<lparr>loggers := loggers ss1 @ [ErrorGettingInterface err]\<rparr> else ss1)
        | (Returns (si, None), ss1) \<Rightarrow>
            (let params = commit_params commit;
                 doc = [(cQuery, query)];
                 ss2 = ss1\<lparr>issued := issued ss1 @ [CallDelete si doc params]\<rparr> in
             case Delete lib (issued ss1) si doc params of
               Panics r \<Rightarrow> (Panics r, ss2)
             | Returns (solrResponse, Some err) \<Rightarrow> (Returns (Some (LibraryError err)), ss2)
             | Returns (None, None) \<Rightarrow> (Panics ''nil pointer dereference'', ss2)
             | Returns (Some solrResponse, None) \<Rightarrow>
                 if \<not> Success solrResponse then
                   (Returns (Some (ErrorDeletingDocuments (Result solrResponse))), ss2)
                 else (Returns None, ss2)))"

text \<open>
  The parameter \<^verbatim>\<open>id\<close> is \<open>docID\<close> here. \<^verbatim>\<open>fmt.Sprintf("id:%s", id)\<close> of a string is the
  prefix followed by the string.
\<close>

definition DeleteDocumentByID ::
  "('si, 'd) solr_library \<Rightarrow> string \<Rightarrow> bool \<Rightarrow> string \<Rightarrow> ('si, 'd) SolrService
     \<Rightarrow> service_error option \<times> ('si, 'd) SolrService" where
  "DeleteDocumentByID lib collection commit docID ss =
     recoverFromFailure lib
       (if docID = cEmpty then (Returns (Some DocumentIdNotInformed), ss)
        else
          (let query = ''id:'' @ docID in
           case DeleteDocumentByQuery lib collection commit query ss of
             (Some err, ss1) \<Rightarrow> (Returns (Some err), ss1)
           | (None, ss1) \<Rightarrow> (Returns None, ss1)))"

section \<open>Properties of the configuration\<close>

lemma min_normal_pos: "0 < min_normal"
  by (simp add: min_normal_def)

lemma min_normal_small: "min_normal \<le> 1 / 10 ^ 10"
  by (simp add: min_normal_def)

lemma max_float_large: "10 ^ 11 \<le> max_float"
  by (simp add: max_float_def)

text \<open>Rounding a positive number of the normal range at most halves or doubles it.\<close>

lemma rnd_pos:
  assumes r: "float64_rounding rnd" and lo: "min_normal \<le> x" and hi: "x \<le> max_float"
  shows "x / 2 \<le> rnd x \<and> rnd x \<le> 2 * x"
proof -
  have x0: "0 < x" using lo min_normal_pos by linarith
  have "min_normal \<le> \<bar>x\<bar> \<and> \<bar>x\<bar> \<le> max_float \<longrightarrow> \<bar>rnd x - x\<bar> \<le> \<bar>x\<bar> / 2 ^ 53"
    using r unfolding float64_rounding_def by blast
  then have "\<bar>rnd x - x\<bar> \<le> x / 2 ^ 53" using lo hi x0 by simp
  moreover have "x / 2 ^ 53 \<le> x / 2" using x0 by (simp add: field_simps)
  ultimately have "\<bar>rnd x - x\<bar> \<le> \<bar>x\<bar> / 2" using x0 by linarith
  then show ?thesis using x0 by linarith
qed

lemma rnd_neg:
  assumes r: "float64_rounding rnd" and lo: "x \<le> - min_normal" and hi: "- max_float \<le> x"
  shows "2 * x \<le> rnd x \<and> rnd x \<le> x / 2"
proof -
  have x0: "x < 0" using lo min_normal_pos by linarith
  have "min_normal \<le> \<bar>x\<bar> \<and> \<bar>x\<bar> \<le> max_float \<longrightarrow> \<bar>rnd x - x\<bar> \<le> \<bar>x\<bar> / 2 ^ 53"
    using r unfolding float64_rounding_def by blast
  then have "\<bar>rnd x - x\<bar> \<le> - x / 2 ^ 53" using lo hi x0 by simp
  moreover have "- x / 2 ^ 53 \<le> - x / 2" using x0 by (simp add: field_simps)
  ultimately have "\<bar>rnd x - x\<bar> \<le> \<bar>x\<bar> / 2" using x0 by linarith
  then show ?thesis using x0 by linarith
qed

lemma rnd_range_pos:
  assumes r: "float64_rounding rnd" and x: "x = 0 \<or> (c \<le> x \<and> x \<le> C)"
    and c: "min_normal \<le> c" and C: "C \<le> max_float"
  shows "(x = 0 \<and> rnd x = 0) \<or> (c \<le> x \<and> c / 2 \<le> rnd x \<and> rnd x \<le> 2 * C)"
proof (cases "x = 0")
  case True
  then show ?thesis using r by (simp add: float64_rounding_def)
next
  case False
  then have b: "c \<le> x" "x \<le> C" using x by simp_all
  then have "x / 2 \<le> rnd x \<and> rnd x \<le> 2 * x"
    using rnd_pos [OF r, of x] c C by linarith
  then show ?thesis using b by simp
qed

lemma rnd_range_neg:
  assumes r: "float64_rounding rnd" and x: "x = 0 \<or> (- C \<le> x \<and> x \<le> - c)"
    and c: "min_normal \<le> c" and C: "C \<le> max_float"
  shows "(x = 0 \<and> rnd x = 0) \<or> (x \<le> - c \<and> - (2 * C) \<le> rnd x \<and> rnd x \<le> - (c / 2))"
proof (cases "x = 0")
  case True
  then show ?thesis using r by (simp add: float64_rounding_def)
next
  case False
  then have b: "- C \<le> x" "x \<le> - c" using x by simp_all
  then have "2 * x \<le> rnd x \<and> rnd x \<le> x / 2"
    using rnd_neg [OF r, of x] c C by linarith
  then show ?thesis using b by simp
qed

text \<open>A positive duration has a positive number of seconds, whatever the rounding does.\<close>

lemma Seconds_pos:
  assumes r: "float64_rounding rnd" and k: "0 < sint d"
  shows "0 < Seconds rnd d"
proof -
  define k where "k = sint d"
  define sec where "sec = k div 1000000000"
  define nsec where "nsec = k mod 1000000000"
  have kr: "0 < k" "k < 2 ^ 63"
    using k sint_lt [of d] by (simp_all add: k_def)
  have "sec \<le> 2 ^ 63 div 1000000000"
    unfolding sec_def using kr by (intro zdiv_mono1) simp_all
  then have sec: "0 \<le> sec" "sec \<le> 10 ^ 10"
    using kr by (simp_all add: sec_def pos_imp_zdiv_nonneg_iff)
  have nsec: "0 \<le> nsec" "nsec < 10 ^ 9"
    by (simp_all add: nsec_def)
  have "k = sec * 1000000000 + nsec"
    by (simp add: sec_def nsec_def)
  then have some: "1 \<le> sec \<or> 1 \<le> nsec"
    using kr sec nsec by (cases "sec = 0") auto
  have sd: "k sdiv Second = sec" "k smod Second = nsec"
    using kr by (simp_all add: signed_divide_int_def signed_modulo_int_def Second_def
        sec_def nsec_def)
  define A where "A = rnd (of_int sec)"
  define N where "N = rnd (of_int nsec)"
  define B where "B = rnd (N / 1000000000)"
  have "real_of_int sec = 0 \<or> (1 \<le> real_of_int sec \<and> real_of_int sec \<le> 10 ^ 10)"
    using sec by (cases "sec = 0") simp_all
  from rnd_range_pos [OF r this] min_normal_small max_float_large
  have A: "(sec = 0 \<and> A = 0) \<or> (1 \<le> sec \<and> 1 / 2 \<le> A \<and> A \<le> 2 * 10 ^ 10)"
    by (simp add: A_def)
  have "real_of_int nsec = 0 \<or> (1 \<le> real_of_int nsec \<and> real_of_int nsec \<le> 10 ^ 9)"
    using nsec by (cases "nsec = 0") simp_all
  from rnd_range_pos [OF r this] min_normal_small max_float_large
  have N: "(nsec = 0 \<and> N = 0) \<or> (1 \<le> nsec \<and> 1 / 2 \<le> N \<and> N \<le> 2 * 10 ^ 9)"
    by (simp add: N_def)
  then have "N / 1000000000 = 0 \<or> (1 / (2 * 10 ^ 9) \<le> N / 1000000000 \<and> N / 1000000000 \<le> 2)"
    by (auto simp: field_simps)
  from rnd_range_pos [OF r this] min_normal_small max_float_large
  have B: "(N = 0 \<and> B = 0) \<or> (1 / (4 * 10 ^ 9) \<le> B \<and> B \<le> 4)"
    by (auto simp add: B_def)
  have AB: "1 / (4 * 10 ^ 9) \<le> A + B \<and> A + B \<le> 10 ^ 11"
    using A B N some by auto
  then have "A + B = 0 \<or> (1 / (4 * 10 ^ 9) \<le> A + B \<and> A + B \<le> 10 ^ 11)" by simp
  from rnd_range_pos [OF r this] min_normal_small max_float_large AB
  have "0 < rnd (A + B)" by auto
  then show ?thesis
    by (simp add: Seconds_def Let_def sd k_def [symmetric] A_def B_def N_def)
qed

lemma Seconds_nonpos:
  assumes r: "float64_rounding rnd" and k: "sint d \<le> 0"
  shows "Seconds rnd d \<le> 0"
proof -
  define k where "k = sint d"
  define sec where "sec = - ((- k) div 1000000000)"
  define nsec where "nsec = - ((- k) mod 1000000000)"
  have kr: "k \<le> 0" "- (2 ^ 63) \<le> k"
    using k sint_ge [of d] by (simp_all add: k_def)
  have "(- k) div 1000000000 \<le> 2 ^ 63 div 1000000000"
    using kr by (intro zdiv_mono1) simp_all
  then have sec: "sec \<le> 0" "- (10 ^ 10) \<le> sec"
    using kr by (simp_all add: sec_def pos_imp_zdiv_nonneg_iff)
  have nsec: "nsec \<le> 0" "- (10 ^ 9) \<le> nsec"
    by (simp_all add: nsec_def)
  have sd: "k sdiv Second = sec" "k smod Second = nsec"
    using kr by (cases "k = 0"; simp add: signed_divide_int_def signed_modulo_int_def Second_def
        sec_def nsec_def)+
  define A where "A = rnd (of_int sec)"
  define N where "N = rnd (of_int nsec)"
  define B where "B = rnd (N / 1000000000)"
  have "real_of_int sec = 0 \<or> (- (10 ^ 10) \<le> real_of_int sec \<and> real_of_int sec \<le> - 1)"
    using sec by (cases "sec = 0") simp_all
  from rnd_range_neg [OF r this] min_normal_small max_float_large
  have A: "A = 0 \<or> (- (2 * 10 ^ 10) \<le> A \<and> A \<le> - (1 / 2))"
    by (auto simp add: A_def)
  have "real_of_int nsec = 0 \<or> (- (10 ^ 9) \<le> real_of_int nsec \<and> real_of_int nsec \<le> - 1)"
    using nsec by (cases "nsec = 0") simp_all
  from rnd_range_neg [OF r this] min_normal_small max_float_large
  have N: "N = 0 \<or> (- (2 * 10 ^ 9) \<le> N \<and> N \<le> - (1 / 2))"
    by (auto simp add: N_def)
  then have "N / 1000000000 = 0 \<or> (- 2 \<le> N / 1000000000 \<and> N / 1000000000 \<le> - (1 / (2 * 10 ^ 9)))"
    by (auto simp: field_simps)
  from rnd_range_neg [OF r this] min_normal_small max_float_large
  have B: "B = 0 \<or> (- 4 \<le> B \<and> B \<le> - (1 / (4 * 10 ^ 9)))"
    by (auto simp add: B_def)
  have "A + B = 0 \<or> (- (10 ^ 11) \<le> A + B \<and> A + B \<le> - (1 / (4 * 10 ^ 9)))"
    using A B by auto
  from rnd_range_neg [OF r this] min_normal_small max_float_large
  have "rnd (A + B) \<le> 0" by auto
  then show ?thesis
    by (simp add: Seconds_def Let_def sd k_def [symmetric] A_def B_def N_def)
qed

lemma Seconds_sign:
  assumes "float64_rounding rnd"
  shows "Seconds rnd d \<le> 0 \<longleftrightarrow> sint d \<le> 0"
  using Seconds_pos [OF assms, of d] Seconds_nonpos [OF assms, of d] by linarith

text \<open>
  C8. \<^verbatim>\<open>Validate\<close> returns \<^verbatim>\<open>nil\<close> if and only if the buffer size, the serializer buffer
  size, the batch send interval and the request timeout are all positive; otherwise it
  returns an error. It reads the configuration only: nothing of a transport is started
  or touched.
\<close>

theorem Validate_nil_iff_all_positive:
  assumes "float64_rounding rnd"
  shows "Validate rnd c = None \<longleftrightarrow>
     0 < sint (TransportBufferSize c) \<and> 0 < sint (SerializerBufferSize c) \<and>
     0 < sint (BatchSendInterval c) \<and> 0 < sint (RequestTimeout c)"
  using Seconds_sign [OF assms] by (auto simp: Validate_def)

theorem Validate_nil_iff_all_positive_witness:
  "float64_rounding (\<lambda>x. x) \<and>
   Validate (\<lambda>x. x)
     \<lparr>TransportBufferSize = 1024, BatchSendInterval = 5000000000,
      RequestTimeout = 1, SerializerBufferSize = 64\<rparr> = None \<and>
   Validate (\<lambda>x. x)
     \<lparr>TransportBufferSize = 1024, BatchSendInterval = 0,
      RequestTimeout = 1, SerializerBufferSize = 64\<rparr> \<noteq> None"
proof -
  have r: "float64_rounding (\<lambda>x. x)"
    by (simp add: float64_rounding_def)
  show ?thesis
    using r
      Validate_nil_iff_all_positive [OF r, of
        "\<lparr>TransportBufferSize = 1024, BatchSendInterval = 5000000000,
          RequestTimeout = 1, SerializerBufferSize = 64\<rparr>"]
      Validate_nil_iff_all_positive [OF r, of
        "\<lparr>TransportBufferSize = 1024, BatchSendInterval = 0,
          RequestTimeout = 1, SerializerBufferSize = 64\<rparr>"]
    by simp
qed

section \<open>Properties of the transfer loop\<close>

lemmas step_defs = Start_def enqueue_def Close_def transferDataLoop_wake_def transferDataLoop_select_def
  transferDataLoop_return_def SwapUint32_def logged_def

subsection \<open>Histories\<close>

lemma cycle_points_Nil [simp]: "cycle_points [] = []"
  by (simp add: cycle_points_def)

lemma cycle_points_append [simp]:
  "cycle_points (tr @ tr') = foldl drained (cycle_points tr) tr'"
  by (simp add: cycle_points_def)

lemma batches_ok_from:
  "batches_ok cur (tr @ tr') \<longleftrightarrow> batches_ok cur tr \<and> batches_ok (foldl drained cur tr) tr'"
  by (induction cur tr rule: batches_ok.induct) auto

lemma batches_ok_append [simp]:
  "batches_ok [] (tr @ tr') \<longleftrightarrow> batches_ok [] tr \<and> batches_ok (cycle_points tr) tr'"
  by (simp add: batches_ok_from cycle_points_def)

lemma sent_points_append [simp]: "sent_points (tr @ tr') = sent_points tr @ sent_points tr'"
  by (induction tr rule: sent_points.induct) auto

lemma received_points_append [simp]:
  "received_points (tr @ tr') = received_points tr @ received_points tr'"
  by (induction tr rule: received_points.induct) auto

lemma transfers_append [simp]: "transfers (tr @ tr') = transfers tr @ transfers tr'"
  by (induction tr rule: transfers.induct) auto

lemma in_flight_append [simp]: "in_flight (tr @ tr') = in_flight tr + in_flight tr'"
  by (induction tr rule: in_flight.induct) auto

subsection \<open>What every execution keeps\<close>

text \<open>A property that holds at the start and that no step breaks holds after every run.\<close>

lemma run_invariant:
  assumes "run evs t = Some t'" and "P t"
    and "\<And>ev u u'. P u \<Longrightarrow> step ev u = Some u' \<Longrightarrow> P u'"
  shows "P t'"
  using assms(1,2)
proof (induction evs arbitrary: t)
  case Nil
  then show ?case by simp
next
  case (Cons ev evs)
  then obtain u where u: "step ev t = Some u" "run evs u = Some t'"
    by (auto split: option.splits)
  from assms(3) [OF Cons.prems(2) u(1)] have "P u" .
  with Cons.IH u(2) show ?case by blast
qed

lemma cycle_inv_step: "cycle_inv t \<Longrightarrow> step ev t = Some t' \<Longrightarrow> cycle_inv t'"
  by (cases ev)
    (auto simp: cycle_inv_def step_defs Let_def split: if_splits loop_pc.splits list.splits)

lemma fifo_inv_step: "fifo_inv t \<Longrightarrow> step ev t = Some t' \<Longrightarrow> fifo_inv t'"
  by (cases ev)
    (auto simp: fifo_inv_def step_defs Let_def split: if_splits loop_pc.splits list.splits)

lemma flight_inv_step: "flight_inv t \<Longrightarrow> step ev t = Some t' \<Longrightarrow> flight_inv t'"
  by (cases ev)
    (auto simp: flight_inv_def step_defs Let_def split: if_splits loop_pc.splits list.splits)

lemma cycle_inv_run:
  assumes "run evs (newCore cap) = Some t"
  shows "cycle_inv t"
proof (rule run_invariant [OF assms, where P = cycle_inv])
  show "cycle_inv (newCore cap)"
    by (simp add: cycle_inv_def newCore_def)
qed (rule cycle_inv_step)

lemma fifo_inv_run:
  assumes "run evs (newCore cap) = Some t"
  shows "fifo_inv t"
proof (rule run_invariant [OF assms, where P = fifo_inv])
  show "fifo_inv (newCore cap)"
    by (simp add: fifo_inv_def newCore_def)
qed (rule fifo_inv_step)

lemma flight_inv_run:
  assumes "run evs (newCore cap) = Some t"
  shows "flight_inv t"
proof (rule run_invariant [OF assms, where P = flight_inv])
  show "flight_inv (newCore cap)"
    by (simp add: flight_inv_def newCore_def)
qed (rule flight_inv_step)

text \<open>
  With its one loop goroutine, a core never has two calls of \<^verbatim>\<open>TransferData\<close> in flight:
  the call is synchronous, and the loop makes no other until it has returned.
\<close>

lemma at_most_one_transfer_in_flight:
  assumes "run evs (newCore cap) = Some t"
  shows "in_flight (trace t) = 0 \<or> in_flight (trace t) = 1"
  using flight_inv_run [OF assms] by (auto simp: flight_inv_def split: loop_pc.splits)

text \<open>
  No point is duplicated: the points sent into the channel are, in order, those of the
  batches transferred, then those in the loop's local \<^verbatim>\<open>points\<close>, then those still in the
  channel.
\<close>

lemma every_point_in_one_place:
  assumes "run evs (newCore cap) = Some t"
  shows "sent_points (trace t) = concat (transfers (trace t)) @ held (loop t) @ pointChannel t"
  using fifo_inv_run [OF assms] by (simp add: fifo_inv_def)

text \<open>Once the loop has left by \<^verbatim>\<open>break outterFor\<close>, nothing is transferred any more.\<close>

lemma stopped_step:
  "loop t = Stopped points \<Longrightarrow> step ev t = Some u
     \<Longrightarrow> loop u = Stopped points \<and> transfers (trace u) = transfers (trace t)"
  by (cases ev) (auto simp: step_defs Let_def split: if_splits)

lemma stopped_is_final:
  assumes "run evs t = Some u" and "loop t = Stopped points"
  shows "loop u = Stopped points \<and> transfers (trace u) = transfers (trace t)"
proof -
  let ?P = "\<lambda>u. loop u = Stopped points \<and> transfers (trace u) = transfers (trace t)"
  have "?P u"
  proof (rule run_invariant [OF assms(1), where P = ?P])
    show "?P t" using assms(2) by simp
  next
    fix ev u u' assume "?P u" "step ev u = Some u'"
    then show "?P u'" using stopped_step [of u points ev u'] by simp
  qed
  then show ?thesis .
qed

text \<open>
  Once the flag is set with no goroutine left to clear it, every cycle is skipped:
  the loop stays at its timer, receives nothing and transfers nothing, for ever.
\<close>

lemma list_all_nth: "list_all P xs \<Longrightarrow> i < length xs \<Longrightarrow> P (xs ! i)"
  by (simp add: list_all_iff)

lemma list_all_take: "list_all P xs \<Longrightarrow> list_all P (take i xs)"
  by (auto simp: list_all_iff dest: in_set_takeD)

lemma list_all_drop: "list_all P xs \<Longrightarrow> list_all P (drop i xs)"
  by (auto simp: list_all_iff dest: in_set_dropD)

lemma flag_stuck_step:
  "flag_stuck t \<Longrightarrow> step ev t = Some u
     \<Longrightarrow> flag_stuck u \<and> transfers (trace u) = transfers (trace t)
         \<and> received_points (trace u) = received_points (trace t)"
  by (cases ev)
    (auto simp: flag_stuck_def step_defs Let_def list_all_nth list_all_take list_all_drop
      split: if_splits)

lemma flag_stuck_for_ever:
  assumes "run evs t = Some u" and "flag_stuck t"
  shows "flag_stuck u \<and> transfers (trace u) = transfers (trace t)
     \<and> received_points (trace u) = received_points (trace t)"
proof -
  let ?P = "\<lambda>u. flag_stuck u \<and> transfers (trace u) = transfers (trace t)
     \<and> received_points (trace u) = received_points (trace t)"
  have "?P u"
  proof (rule run_invariant [OF assms(1), where P = ?P])
    show "?P t" using assms(2) by simp
  next
    fix ev u u' assume "?P u" "step ev u = Some u'"
    then show "?P u'" using flag_stuck_step [of u ev u'] by simp
  qed
  then show ?thesis .
qed


subsection \<open>What is given to the sender\<close>

text \<open>
  C5. In every execution, whenever \<^verbatim>\<open>TransferData\<close> is called, the drain of that cycle has
  received at least one point, and the batch is not empty: a cycle whose drain receives
  nothing calls \<^verbatim>\<open>TransferData\<close> zero times.
\<close>

theorem empty_drain_calls_no_transfer:
  assumes "run evs (newCore cap) = Some t"
    and "trace t = tr @ TransferCall batch # rest"
  shows "cycle_points tr \<noteq> [] \<and> batch \<noteq> []"
proof -
  have "batches_ok [] (trace t)"
    using cycle_inv_run [OF assms(1)] by (simp add: cycle_inv_def)
  then have "batches_ok [] (tr @ TransferCall batch # rest)"
    by (simp only: assms(2))
  then show ?thesis by auto
qed

theorem empty_drain_calls_no_transfer_witness:
  "\<exists>t. run [CallStart, TimerFires, Select, Enqueue (7::nat), TimerFires, Select, Select]
       (newCore 1) = Some t \<and>
     trace t =
       [Logged InfoStarting, Logged InfoInitializing, DrainBegins, Logged InfoBufferEmpty,
        Sent 7, DrainBegins, Recv 7, Logged (InfoSending 1)] @ TransferCall [7] # [] \<and>
     cycle_points
       [Logged InfoStarting, Logged InfoInitializing, DrainBegins, Logged InfoBufferEmpty,
        Sent (7::nat), DrainBegins, Recv 7, Logged (InfoSending 1)] \<noteq> []"
proof -
  let ?evs = "[CallStart, TimerFires, Select, Enqueue (7::nat), TimerFires, Select, Select]"
  let ?tr = "[Logged InfoStarting, Logged InfoInitializing, DrainBegins, Logged InfoBufferEmpty,
              Sent 7, DrainBegins, Recv 7, Logged (InfoSending 1)] :: nat obs list"
  have "\<exists>t. run ?evs (newCore 1) = Some t \<and> trace t = ?tr @ TransferCall [7] # []"
    by (simp add: step_defs newCore_def)
  then obtain t where t: "run ?evs (newCore 1) = Some t" "trace t = ?tr @ TransferCall [7] # []"
    by blast
  from empty_drain_calls_no_transfer [OF t] have "cycle_points ?tr \<noteq> []" ..
  then show ?thesis using t by (intro exI [of _ t] conjI)
qed

text \<open>
  C7. In every execution, the batch of a call of \<^verbatim>\<open>TransferData\<close> is exactly the points
  the loop has received from the channel since the drain of that cycle began, in the order
  it received them; and the channel is first-in first-out, so that the points received,
  followed by those still in the channel, are the points sent, in the order they were
  sent.
\<close>

theorem batch_is_what_the_drain_received:
  assumes "run evs (newCore cap) = Some t"
    and "trace t = tr @ TransferCall batch # rest"
  shows "batch = cycle_points tr \<and>
     sent_points (trace t) = received_points (trace t) @ pointChannel t"
proof -
  have "batches_ok [] (trace t)"
    using cycle_inv_run [OF assms(1)] by (simp add: cycle_inv_def)
  then have "batches_ok [] (tr @ TransferCall batch # rest)"
    by (simp only: assms(2))
  then have "batch = cycle_points tr" by auto
  moreover have "sent_points (trace t) = received_points (trace t) @ pointChannel t"
    using fifo_inv_run [OF assms(1)] by (simp add: fifo_inv_def)
  ultimately show ?thesis by simp
qed

theorem batch_is_what_the_drain_received_witness:
  "\<exists>t. run [CallStart, Enqueue (1::nat), Enqueue 2, TimerFires, Select, Select, Select, Enqueue 3]
       (newCore 4) = Some t \<and>
     trace t =
       [Logged InfoStarting, Logged InfoInitializing, Sent 1, Sent 2, DrainBegins,
        Recv 1, Recv 2, Logged (InfoSending 2)] @ TransferCall [1, 2] # [Sent 3] \<and>
     [1, 2] =
       cycle_points [Logged InfoStarting, Logged InfoInitializing, Sent (1::nat), Sent 2,
         DrainBegins, Recv 1, Recv 2, Logged (InfoSending 2)] \<and>
     sent_points (trace t) = received_points (trace t) @ pointChannel t \<and>
     pointChannel t = [3]"
proof -
  let ?evs = "[CallStart, Enqueue (1::nat), Enqueue 2, TimerFires, Select, Select, Select, Enqueue 3]"
  let ?tr = "[Logged InfoStarting, Logged InfoInitializing, Sent 1, Sent 2, DrainBegins,
              Recv 1, Recv 2, Logged (InfoSending 2)] :: nat obs list"
  have "\<exists>t. run ?evs (newCore 4) = Some t \<and> trace t = ?tr @ TransferCall [1, 2] # [Sent 3] \<and>
          pointChannel t = [3]"
    by (simp add: step_defs newCore_def)
  then obtain t where t: "run ?evs (newCore 4) = Some t"
      "trace t = ?tr @ TransferCall [1, 2] # [Sent 3]"
    and c: "pointChannel t = [3]"
    by blast
  from batch_is_what_the_drain_received [OF t]
  have "[1, 2] = cycle_points ?tr"
    and "sent_points (trace t) = received_points (trace t) @ pointChannel t"
    by (rule conjunct1, rule conjunct2)
  then show ?thesis using t c by (intro exI [of _ t] conjI)
qed


subsection \<open>An error of the sender\<close>

text \<open>No step reads the history: two states that differ in it only go the same way.\<close>

lemma forget_eq_iff:
  "forget t = forget u \<longleftrightarrow>
     dataTransferInProgress t = dataTransferInProgress u \<and> pointChannel t = pointChannel u \<and>
     chanCapacity t = chanCapacity u \<and> chanClosed t = chanClosed u \<and> swaps t = swaps u \<and>
     loop t = loop u \<and> panicked t = panicked u"
  by (cases t; cases u) (auto simp: forget_def)

lemma step_agree_None:
  assumes "forget t1 = forget t2" and "step ev t1 = None"
  shows "step ev t2 = None"
  using assms
  by (cases ev)
    (auto simp: forget_eq_iff step_defs Let_def split: if_splits loop_pc.splits list.splits)

lemma step_agree_Some:
  assumes "forget t1 = forget t2" and "step ev t1 = Some u1"
  shows "\<exists>u2 x. step ev t2 = Some u2 \<and> forget u1 = forget u2 \<and>
     trace u1 = trace t1 @ x \<and> trace u2 = trace t2 @ x"
  using assms
  by (cases ev)
    (auto simp: forget_eq_iff step_defs Let_def split: if_splits loop_pc.splits list.splits)

lemma run_agree:
  assumes "forget t1 = forget t2"
  shows "(run evs t1 = None \<longrightarrow> run evs t2 = None) \<and>
     (\<forall>u1. run evs t1 = Some u1 \<longrightarrow>
        (\<exists>u2 x. run evs t2 = Some u2 \<and> forget u1 = forget u2 \<and>
           trace u1 = trace t1 @ x \<and> trace u2 = trace t2 @ x))"
  using assms
proof (induction evs arbitrary: t1 t2)
  case Nil
  then show ?case by simp
next
  case (Cons ev evs)
  show ?case
  proof (cases "step ev t1")
    case None
    with step_agree_None [OF Cons.prems] show ?thesis by simp
  next
    case (Some v1)
    from step_agree_Some [OF Cons.prems Some] obtain v2 x where
      v2: "step ev t2 = Some v2" "forget v1 = forget v2"
        "trace v1 = trace t1 @ x" "trace v2 = trace t2 @ x"
      by blast
    from Cons.IH [OF v2(2)] Some v2 show ?thesis by auto
  qed
qed

lemma run_agree_since:
  assumes "forget t1 = forget t2"
  shows "map_option (\<lambda>u. (forget u, since t1 u)) (run evs t1) =
     map_option (\<lambda>u. (forget u, since t2 u)) (run evs t2)"
proof (cases "run evs t1")
  case None
  with run_agree [OF assms, of evs] show ?thesis by simp
next
  case (Some u1)
  with run_agree [OF assms, of evs] obtain u2 x where
    "run evs t2 = Some u2" "forget u1 = forget u2"
    "trace u1 = trace t1 @ x" "trace u2 = trace t2 @ x"
    by blast
  with Some show ?thesis by (simp add: since_def)
qed

text \<open>
  C6. When \<^verbatim>\<open>TransferData\<close> returns an error, the error is logged and nothing else is done:
  the history gains the return and the error message only (no new call of the sender, no
  point sent back into the channel), the channel is unchanged, and the core is in the
  state a success would have left it in, its history apart, so that every continuation
  goes as it would after a success.
\<close>

theorem transfer_error_is_logged_and_nothing_else:
  assumes "loop t = Transferring batch" and "\<not> panicked t"
  shows "\<exists>t_err t_ok.
     step (TransferReturns (Some e)) t = Some t_err \<and>
     step (TransferReturns None) t = Some t_ok \<and>
     since t t_err = [TransferReturn (Some e), Logged (ErrorReported e)] \<and>
     pointChannel t_err = pointChannel t \<and>
     loop t_err = Sleeping \<and>
     forget t_err = forget t_ok \<and>
     (\<forall>evs. map_option (\<lambda>u. (forget u, since t_err u)) (run evs t_err) =
            map_option (\<lambda>u. (forget u, since t_ok u)) (run evs t_ok))"
proof -
  obtain t_err where err: "step (TransferReturns (Some e)) t = Some t_err"
    using assms by (simp add: transferDataLoop_return_def)
  obtain t_ok where ok: "step (TransferReturns None) t = Some t_ok"
    using assms by (simp add: transferDataLoop_return_def)
  have same: "forget t_err = forget t_ok"
    using assms err ok by (auto simp: transferDataLoop_return_def forget_def)
  have "since t t_err = [TransferReturn (Some e), Logged (ErrorReported e)]"
    and "pointChannel t_err = pointChannel t" and "loop t_err = Sleeping"
    using assms err by (auto simp: transferDataLoop_return_def since_def)
  with err ok same run_agree_since [OF same] show ?thesis by blast
qed

theorem transfer_error_is_logged_and_nothing_else_witness:
  "\<exists>t. run [CallStart, Enqueue (1::nat), TimerFires, Select, Select, Enqueue 2] (newCore 2) = Some t \<and>
     loop t = Transferring [1] \<and> \<not> panicked t \<and> pointChannel t = [2] \<and>
     (\<exists>t_err t_ok.
        step (TransferReturns (Some ''connection refused'')) t = Some t_err \<and>
        step (TransferReturns None) t = Some t_ok \<and>
        since t t_err =
          [TransferReturn (Some ''connection refused''),
           Logged (ErrorReported ''connection refused'')] \<and>
        pointChannel t_err = pointChannel t \<and>
        loop t_err = Sleeping \<and>
        forget t_err = forget t_ok \<and>
        (\<forall>evs. map_option (\<lambda>u. (forget u, since t_err u)) (run evs t_err) =
               map_option (\<lambda>u. (forget u, since t_ok u)) (run evs t_ok)))"
proof -
  have "\<exists>t. run [CallStart, Enqueue (1::nat), TimerFires, Select, Select, Enqueue 2] (newCore 2) = Some t \<and>
     loop t = Transferring [1] \<and> \<not> panicked t \<and> pointChannel t = [2]"
    by (simp add: step_defs newCore_def)
  then obtain t where t:
    "run [CallStart, Enqueue (1::nat), TimerFires, Select, Select, Enqueue 2] (newCore 2) = Some t"
    "loop t = Transferring [1]" "\<not> panicked t" "pointChannel t = [2]"
    by blast
  from transfer_error_is_logged_and_nothing_else [OF t(2,3), of "''connection refused''"] t
  show ?thesis by - (rule exI [of _ t], intro conjI)
qed


subsection \<open>Where the loop departs from its description\<close>

text \<open>
  C1. The flag is not tested and set in one atomic step. Line 122 reads it; line 127 only
  starts a goroutine that will set it. In the first execution the loop has passed the
  test, has drained the channel and is inside \<^verbatim>\<open>TransferData\<close>, and the flag is still 0:
  the goroutine that sets it has not run. In the second the transfer has returned and the
  goroutine that clears the flag runs before the one that sets it: the flag stays set with
  no transfer in flight. (With its single loop the core still never has two transfers in
  flight: \<open>at_most_one_transfer_in_flight\<close>.)
\<close>

theorem flag_is_tested_and_set_in_separate_steps:
  "map_option (\<lambda>t. (loop t, dataTransferInProgress t, swaps t, in_flight (trace t)))
     (run [CallStart, Enqueue (1::nat), TimerFires, Select, Select] (newCore 1)) =
     Some (Transferring [1], 0, [1], 1) \<and>
   map_option (\<lambda>t. (loop t, dataTransferInProgress t, swaps t, in_flight (trace t)))
     (run [CallStart, Enqueue (1::nat), TimerFires, Select, Select, TransferReturns None,
           RunSwap 1, RunSwap 0] (newCore 1)) =
     Some (Sleeping, 1, [], 0)"
  by (simp add: step_defs newCore_def)

text \<open>
  C2. A cycle whose drain receives nothing goes back to the timer by \<^verbatim>\<open>continue\<close> (line
  153) and never reaches line 165: the flag it has set is not cleared. The first
  execution is one such cycle: afterwards the loop is at its timer, the flag is 1 and no
  goroutine is left to clear it. In the second a point is then sent and the timer fires:
  the cycle is skipped, and the point stays in the channel. By \<open>flag_stuck_for_ever\<close>
  every later cycle is skipped too.
\<close>

theorem empty_drain_leaves_the_flag_set:
  "map_option (\<lambda>t. (loop t, dataTransferInProgress t, swaps t, flag_stuck t))
     (run [CallStart, TimerFires, RunSwap 0, Select] (newCore 1 :: nat transportCore)) =
     Some (Sleeping, 1, [], True) \<and>
   map_option (\<lambda>t. (loop t, dataTransferInProgress t, pointChannel t, transfers (trace t),
                     last (trace t)))
     (run [CallStart, TimerFires, RunSwap 0, Select, Enqueue (1::nat), TimerFires] (newCore 1)) =
     Some (Sleeping, 1, [1], [], Logged InfoSkipping)"
  by (simp add: step_defs newCore_def flag_stuck_def)

text \<open>
  C3. A point is sent, the channel is closed, the timer fires. The drain receives the
  point (a closed channel still yields what it holds), then the receive reports the
  channel closed and the loop leaves by \<^verbatim>\<open>break outterFor\<close> (line 139), before line 158:
  the point is in no batch, and by \<open>stopped_is_final\<close> it never will be. The sender was
  never called, so it returned no error, and the capacity of the channel was not exceeded.
\<close>

theorem point_sent_before_close_is_lost:
  "map_option (\<lambda>t. (loop t, pointChannel t, sent_points (trace t), transfers (trace t)))
     (run [CallStart, Enqueue (1::nat), CallClose, TimerFires, RunSwap 0, Select, Select] (newCore 1)) =
     Some (Stopped [1], [], [1], [])"
  by (simp add: step_defs newCore_def)

text \<open>
  C4. After \<^verbatim>\<open>Close\<close> the loop drains what the channel holds and stops, but the batch of
  that last drain is not given to \<^verbatim>\<open>TransferData\<close>: in the first execution the loop stops
  holding both points, and nothing has been transferred. In the second the flag was left
  set by an earlier empty cycle (see C2): after \<^verbatim>\<open>Close\<close> every cycle is skipped, the point
  stays in the channel, and the loop does not stop.
\<close>

theorem last_drain_is_not_transferred:
  "map_option (\<lambda>t. (loop t, pointChannel t, transfers (trace t), last (trace t)))
     (run [CallStart, Enqueue (1::nat), Enqueue 2, CallClose, TimerFires, RunSwap 0,
           Select, Select, Select] (newCore 2)) =
     Some (Stopped [1, 2], [], [], Logged InfoBreaking) \<and>
   map_option (\<lambda>t. (loop t, pointChannel t, transfers (trace t), last (trace t), flag_stuck t))
     (run [CallStart, TimerFires, RunSwap 0, Select, Enqueue (1::nat), CallClose,
           TimerFires, TimerFires] (newCore 2)) =
     Some (Sleeping, [1], [], Logged InfoSkipping, True)"
  by (simp add: step_defs newCore_def flag_stuck_def)


section \<open>Properties of the Solr service\<close>

text \<open>
  C9. Each mutation rejects a missing argument with an error and does nothing else:
  \<^verbatim>\<open>AddDocument\<close> with a \<^verbatim>\<open>nil\<close> document, \<^verbatim>\<open>AddDocuments\<close> with a \<^verbatim>\<open>nil\<close> or an empty slice,
  \<^verbatim>\<open>DeleteDocumentByID\<close> with an empty id and \<^verbatim>\<open>DeleteDocumentByQuery\<close> with an empty query.
  The service is returned as it was, whatever the library would answer: no interface has
  been looked up, created or stored, and no call has been issued.
\<close>

theorem missing_argument_is_rejected_before_any_call:
  "AddDocument lib collection commit None ss = (Some DocumentIsNull, ss) \<and>
   AddDocuments lib collection commit None ss = (Some NoDocumentsToAdd, ss) \<and>
   AddDocuments lib collection commit (Some []) ss = (Some NoDocumentsToAdd, ss) \<and>
   DeleteDocumentByID lib collection commit [] ss = (Some DocumentIdNotInformed, ss) \<and>
   DeleteDocumentByQuery lib collection commit [] ss = (Some QueryNotInformed, ss)"
  by (simp add: AddDocument_def AddDocuments_def DeleteDocumentByID_def
      DeleteDocumentByQuery_def recoverFromFailure_def cEmpty_def)

text \<open>
  C10. For every collection, commit flag and non-empty id, \<^verbatim>\<open>DeleteDocumentByID\<close> returns
  what \<^verbatim>\<open>DeleteDocumentByQuery\<close> returns for the query \<^verbatim>\<open>"id:" + id\<close>, and leaves the service
  in the same state.
\<close>

theorem DeleteDocumentByID_is_DeleteDocumentByQuery:
  assumes "docID \<noteq> cEmpty"
  shows "DeleteDocumentByID lib collection commit docID ss =
     DeleteDocumentByQuery lib collection commit (''id:'' @ docID) ss"
proof -
  obtain err ss1 where q:
    "DeleteDocumentByQuery lib collection commit (''id:'' @ docID) ss = (err, ss1)"
    by (cases "DeleteDocumentByQuery lib collection commit (''id:'' @ docID) ss")
  show ?thesis
    using assms q by (cases err) (simp_all add: DeleteDocumentByID_def recoverFromFailure_def)
qed

theorem DeleteDocumentByID_is_DeleteDocumentByQuery_witness:
  "''42'' \<noteq> cEmpty \<and>
   DeleteDocumentByID
     \<lparr>NewSolrInterface = (\<lambda>h u c. Returns (Some (0::nat), None)),
      Add = (\<lambda>h si (ds :: nat list option) n p. Returns (None, None)),
      Delete = (\<lambda>h si d p. Returns (Some \<lparr>Success = False, Result = ''not found''\<rparr>, None)),
      ErrorEnabled = True\<rparr>
     ''books'' True ''42''
     \<lparr>url = ''http://localhost:8983/solr'', solrInterfaceCache = Map.empty,
      loggers = [], issued = []\<rparr> =
   DeleteDocumentByQuery
     \<lparr>NewSolrInterface = (\<lambda>h u c. Returns (Some (0::nat), None)),
      Add = (\<lambda>h si (ds :: nat list option) n p. Returns (None, None)),
      Delete = (\<lambda>h si d p. Returns (Some \<lparr>Success = False, Result = ''not found''\<rparr>, None)),
      ErrorEnabled = True\<rparr>
     ''books'' True (''id:'' @ ''42'')
     \<lparr>url = ''http://localhost:8983/solr'', solrInterfaceCache = Map.empty,
      loggers = [], issued = []\<rparr> \<and>
   fst (DeleteDocumentByQuery
     \<lparr>NewSolrInterface = (\<lambda>h u c. Returns (Some (0::nat), None)),
      Add = (\<lambda>h si (ds :: nat list option) n p. Returns (None, None)),
      Delete = (\<lambda>h si d p. Returns (Some \<lparr>Success = False, Result = ''not found''\<rparr>, None)),
      ErrorEnabled = True\<rparr>
     ''books'' True (''id:'' @ ''42'')
     \<lparr>url = ''http://localhost:8983/solr'', solrInterfaceCache = Map.empty,
      loggers = [], issued = []\<rparr>) = Some (ErrorDeletingDocuments ''not found'')"
proof -
  let ?lib = "\<lparr>NewSolrInterface = (\<lambda>h u c. Returns (Some (0::nat), None)),
      Add = (\<lambda>h si (ds :: nat list option) n p. Returns (None, None)),
      Delete = (\<lambda>h si d p. Returns (Some \<lparr>Success = False, Result = ''not found''\<rparr>, None)),
      ErrorEnabled = True\<rparr>"
  let ?ss = "\<lparr>url = ''http://localhost:8983/solr'', solrInterfaceCache = Map.empty,
      loggers = [], issued = []\<rparr> :: (nat, nat) SolrService"
  have ne: "''42'' \<noteq> cEmpty"
    by (simp add: cEmpty_def)
  have eq: "DeleteDocumentByID ?lib ''books'' True ''42'' ?ss =
      DeleteDocumentByQuery ?lib ''books'' True (''id:'' @ ''42'') ?ss"
    by (rule DeleteDocumentByID_is_DeleteDocumentByQuery [OF ne])
  have "fst (DeleteDocumentByQuery ?lib ''books'' True (''id:'' @ ''42'') ?ss) =
      Some (ErrorDeletingDocuments ''not found'')"
    by (simp add: DeleteDocumentByQuery_def recoverFromFailure_def getSolrInterface_def
        commit_params_def cEmpty_def Let_def)
  with ne eq show ?thesis by (intro conjI)
qed

end
